theory Spec2Isabelle
  imports Complex_Main "HOL-Library.Word"
begin

section \<open>Arrays\<close>

text \<open>
  The source works on numpy arrays. An array is modelled by its shape and its elements in
  row-major order; the elements are real numbers, so all results below are statements of
  exact arithmetic (rounding of IEEE doubles is outside the model). A value that numpy
  would report as \<open>nan\<close> or \<open>inf\<close> is no real number: an operation producing one in a
  result element ends in the error \<open>NotFinite\<close>.
\<close>

datatype error =
    ShapeMismatch   \<comment> \<open>the shapes of the operands cannot be broadcast\<close>
  | NoLeadingDim    \<comment> \<open>\<open>shape[0]\<close> read on an array without dimensions\<close>
  | AxisError       \<comment> \<open>axis out of range for the array\<close>
  | DuplicateAxis   \<comment> \<open>the same axis named twice\<close>
  | NotFinite       \<comment> \<open>an element of the result is \<open>nan\<close> or \<open>inf\<close>\<close>

record ndarray =
  shape :: "nat list"
  data :: "real list"

definition wf_ndarray :: "ndarray \<Rightarrow> bool" where
  "wf_ndarray a \<longleftrightarrow> length (data a) = prod_list (shape a)"

definition bindE :: "error + 'a \<Rightarrow> ('a \<Rightarrow> error + 'b) \<Rightarrow> error + 'b" where
  "bindE m f = (case m of Inl e \<Rightarrow> Inl e | Inr x \<Rightarrow> f x)"

subsection \<open>Broadcasting\<close>

text \<open>
  numpy combines two arrays element by element after broadcasting them to a common shape:
  the shapes are aligned at their last dimension, a missing dimension counts as \<open>1\<close>, and
  two lengths fit when they are equal or one of them is \<open>1\<close>; a dimension of length \<open>1\<close> is
  repeated. Shapes that do not fit raise \<open>ValueError\<close>.
\<close>

fun broadcast_rev :: "nat list \<Rightarrow> nat list \<Rightarrow> nat list option" where
  "broadcast_rev [] ys = Some ys"
| "broadcast_rev (x # xs) [] = Some (x # xs)"
| "broadcast_rev (x # xs) (y # ys) =
     (if x = y \<or> y = 1 then map_option ((#) x) (broadcast_rev xs ys)
      else if x = 1 then map_option ((#) y) (broadcast_rev xs ys)
      else None)"

definition broadcast_shape :: "nat list \<Rightarrow> nat list \<Rightarrow> nat list option" where
  "broadcast_shape s1 s2 = map_option rev (broadcast_rev (rev s1) (rev s2))"

text \<open>Positions in row-major order: \<open>unravel\<close> turns a position into the index tuple of an
  array of the given shape, \<open>ravel\<close> turns an index tuple back into a position.\<close>

fun unravel :: "nat list \<Rightarrow> nat \<Rightarrow> nat list" where
  "unravel [] r = []"
| "unravel (d # ds) r = (r div prod_list ds) # unravel ds (r mod prod_list ds)"

fun ravel :: "nat list \<Rightarrow> nat list \<Rightarrow> nat" where
  "ravel (d # ds) (i # is) = i * prod_list ds + ravel ds is"
| "ravel _ _ = 0"

text \<open>The position in an array of shape \<open>s\<close> that is read for the position \<open>r\<close> of the
  broadcast result of shape \<open>rs\<close>: along a dimension of length \<open>1\<close> the index is \<open>0\<close>.\<close>

definition bcast_index :: "nat list \<Rightarrow> nat list \<Rightarrow> nat \<Rightarrow> nat" where
  "bcast_index s rs r =
     (let s' = replicate (length rs - length s) 1 @ s
      in ravel s' (map2 (\<lambda>d i. if d = 1 then 0 else i) s' (unravel rs r)))"

definition broadcast_to :: "ndarray \<Rightarrow> nat list \<Rightarrow> real list" where
  "broadcast_to a rs = map (\<lambda>r. data a ! bcast_index (shape a) rs r) [0..<prod_list rs]"

subsection \<open>Elementwise operations\<close>

definition nd_binop :: "(real \<Rightarrow> real \<Rightarrow> real) \<Rightarrow> ndarray \<Rightarrow> ndarray \<Rightarrow> error + ndarray" where
  "nd_binop f a b =
     (case broadcast_shape (shape a) (shape b) of
        None \<Rightarrow> Inl ShapeMismatch
      | Some rs \<Rightarrow> Inr \<lparr>shape = rs, data = map2 f (broadcast_to a rs) (broadcast_to b rs)\<rparr>)"

text \<open>\<open>a - b\<close> and \<open>a + b\<close> on arrays.\<close>

definition nd_sub :: "ndarray \<Rightarrow> ndarray \<Rightarrow> error + ndarray" where
  "nd_sub a b = nd_binop (\<lambda>x y. x - y) a b"

definition nd_add :: "ndarray \<Rightarrow> ndarray \<Rightarrow> error + ndarray" where
  "nd_add a b = nd_binop (\<lambda>x y. x + y) a b"

text \<open>The in-place \<open>a += b\<close>: the result is written into \<open>a\<close>, so \<open>b\<close> is broadcast to the
  shape of \<open>a\<close>, and a broadcast shape other than that of \<open>a\<close> raises \<open>ValueError\<close>.\<close>

definition nd_iadd :: "ndarray \<Rightarrow> ndarray \<Rightarrow> error + ndarray" where
  "nd_iadd a b =
     (case broadcast_shape (shape a) (shape b) of
        None \<Rightarrow> Inl ShapeMismatch
      | Some rs \<Rightarrow>
          if rs = shape a
          then Inr \<lparr>shape = shape a, data = map2 (\<lambda>x y. x + y) (data a) (broadcast_to b rs)\<rparr>
          else Inl ShapeMismatch)"

text \<open>\<open>a * c\<close> and \<open>a / c\<close> for a scalar \<open>c\<close>. numpy divides element by element and
  raises nothing: an element divided by zero becomes \<open>inf\<close> or \<open>nan\<close>, and an array without
  elements is returned as it is.\<close>

definition nd_mul_scalar :: "ndarray \<Rightarrow> real \<Rightarrow> ndarray" where
  "nd_mul_scalar a c = \<lparr>shape = shape a, data = map (\<lambda>x. x * c) (data a)\<rparr>"

definition nd_div_scalar :: "ndarray \<Rightarrow> real \<Rightarrow> error + ndarray" where
  "nd_div_scalar a c =
     (if c = 0 \<and> data a \<noteq> [] then Inl NotFinite
      else Inr \<lparr>shape = shape a, data = map (\<lambda>x. x / c) (data a)\<rparr>)"

text \<open>\<open>np.square\<close>.\<close>

definition nd_square :: "ndarray \<Rightarrow> ndarray" where
  "nd_square a = \<lparr>shape = shape a, data = map (\<lambda>x. x * x) (data a)\<rparr>"

text \<open>\<open>np.linalg.norm\<close> with its default arguments: the 2-norm of the flattened array.\<close>

definition l2 :: "real list \<Rightarrow> real" where
  "l2 xs = sqrt (sum_list (map (\<lambda>x. x * x) xs))"

definition nd_norm :: "ndarray \<Rightarrow> real" where
  "nd_norm a = l2 (data a)"

subsection \<open>Mean along axes\<close>

datatype axis_arg = AxisNone | AxisInt int | AxisTuple "int list"

text \<open>An axis \<open>k\<close> of an array with \<open>nd\<close> dimensions is valid when \<open>-nd \<le> k < nd\<close>; a negative
  axis counts from the last dimension.\<close>

definition normalize_axis :: "nat \<Rightarrow> int \<Rightarrow> error + nat" where
  "normalize_axis nd k =
     (if - int nd \<le> k \<and> k < int nd
      then Inr (nat (if k < 0 then k + int nd else k))
      else Inl AxisError)"

fun normalize_axes :: "nat \<Rightarrow> int list \<Rightarrow> error + nat list" where
  "normalize_axes nd [] = Inr []"
| "normalize_axes nd (k # ks) =
     (case normalize_axis nd k of
        Inl e \<Rightarrow> Inl e
      | Inr ax \<Rightarrow>
          (case normalize_axes nd ks of
             Inl e \<Rightarrow> Inl e
           | Inr axs \<Rightarrow> if ax \<in> set axs then Inl DuplicateAxis else Inr (ax # axs)))"

text \<open>The sum along one axis \<open>k\<close> of a row-major array: with \<open>outer\<close> the number of index
  tuples before the axis, \<open>n\<close> its length and \<open>inner\<close> the number of index tuples after it,
  the element \<open>(o, j, i)\<close> is at position \<open>(o * n + j) * inner + i\<close>.\<close>

definition nd_sum_axis :: "ndarray \<Rightarrow> nat \<Rightarrow> ndarray" where
  "nd_sum_axis a k =
     (let outer = prod_list (take k (shape a));
          n = shape a ! k;
          inner = prod_list (drop (Suc k) (shape a))
      in \<lparr>shape = take k (shape a) @ drop (Suc k) (shape a),
          data = concat (map (\<lambda>out. map (\<lambda>i. sum_list (map (\<lambda>j. data a ! ((out * n + j) * inner + i)) [0..<n]))
                                        [0..<inner])
                             [0..<outer])\<rparr>)"

text \<open>The mean over a list of distinct valid axes: the sums along these axes, taken from the
  last axis to the first, divided by the number of elements averaged. Where that number is
  zero numpy gives \<open>nan\<close> in every element of the result.\<close>

definition nd_mean_axes :: "ndarray \<Rightarrow> nat list \<Rightarrow> error + ndarray" where
  "nd_mean_axes a axs =
     (let cnt = prod_list (map (\<lambda>k. shape a ! k) axs);
          r = fold (\<lambda>k b. nd_sum_axis b k) (rev (sort axs)) a
      in nd_div_scalar r (real cnt))"

definition nd_mean :: "ndarray \<Rightarrow> axis_arg \<Rightarrow> error + ndarray" where
  "nd_mean a ax =
     (case ax of
        AxisNone \<Rightarrow>
          nd_div_scalar \<lparr>shape = [], data = [sum_list (data a)]\<rparr> (real (length (data a)))
      | AxisInt k \<Rightarrow> bindE (normalize_axes (length (shape a)) [k]) (nd_mean_axes a)
      | AxisTuple ks \<Rightarrow> bindE (normalize_axes (length (shape a)) ks) (nd_mean_axes a))"

section \<open>The mean squared error\<close>

text \<open>The object holds the penalty array, \<open>None\<close> until a caller sets it, and the threshold of
  the gradient clipping given to the constructor. The defaults of the source (the threshold
  \<open>1e5\<close>, \<open>axis = None\<close>, \<open>delta_output = 1\<close>) are passed as arguments here.\<close>

record mean_squared_error =
  penalty_arr :: "ndarray option"
  grad_clip_threshold :: real

definition init :: "real \<Rightarrow> mean_squared_error" where
  "init t = \<lparr>penalty_arr = None, grad_clip_threshold = t\<rparr>"

text \<open>\<open>cdef int batch_size = labeled_arr.shape[0]\<close>: the leading dimension, converted to a C
  \<open>int\<close> of 32 bits. On an array without dimensions the source reads past the end of the
  shape, which is an error here.\<close>

definition batch_size_of :: "ndarray \<Rightarrow> error + int" where
  "batch_size_of a =
     (case shape a of
        [] \<Rightarrow> Inl NoLeadingDim
      | n # _ \<Rightarrow> Inr (sint (word_of_nat n :: 32 word)))"

text \<open>\<open>compute_loss\<close> up to its last line: the array \<open>diff_arr\<close> that is squared and
  averaged. It is named so that results can speak about it.\<close>

definition loss_diff_arr :: "mean_squared_error \<Rightarrow> ndarray \<Rightarrow> ndarray \<Rightarrow> error + ndarray" where
  "loss_diff_arr self pred_arr labeled_arr =
     bindE (batch_size_of labeled_arr) (\<lambda>batch_size.
     bindE (nd_sub labeled_arr pred_arr) (\<lambda>d.
     bindE (nd_div_scalar d (real_of_int batch_size)) (\<lambda>diff_arr.
     let v = nd_norm diff_arr in
     bindE (if v > grad_clip_threshold self
            then nd_div_scalar (nd_mul_scalar diff_arr (grad_clip_threshold self)) v
            else Inr diff_arr) (\<lambda>diff_arr.
     case penalty_arr self of
       None \<Rightarrow> Inr diff_arr
     | Some p \<Rightarrow> nd_iadd diff_arr p))))"

definition compute_loss ::
  "mean_squared_error \<Rightarrow> ndarray \<Rightarrow> ndarray \<Rightarrow> axis_arg \<Rightarrow> error + ndarray" where
  "compute_loss self pred_arr labeled_arr axis =
     bindE (loss_diff_arr self pred_arr labeled_arr) (\<lambda>diff_arr.
       nd_mean (nd_square diff_arr) axis)"

definition compute_delta ::
  "mean_squared_error \<Rightarrow> ndarray \<Rightarrow> ndarray \<Rightarrow> real \<Rightarrow> error + ndarray" where
  "compute_delta self pred_arr labeled_arr delta_output =
     bindE (batch_size_of labeled_arr) (\<lambda>batch_size.
     bindE (nd_sub pred_arr labeled_arr) (\<lambda>d.
     bindE (nd_div_scalar d (real_of_int batch_size)) (\<lambda>d.
     let delta_arr = nd_mul_scalar d delta_output;
         v = nd_norm delta_arr in
     bindE (if v > grad_clip_threshold self
            then nd_div_scalar (nd_mul_scalar delta_arr (grad_clip_threshold self)) v
            else Inr delta_arr) (\<lambda>delta_arr.
     case penalty_arr self of
       None \<Rightarrow> Inr delta_arr
     | Some p \<Rightarrow> nd_iadd delta_arr p))))"

definition reverse_delta ::
  "mean_squared_error \<Rightarrow> ndarray \<Rightarrow> ndarray \<Rightarrow> real \<Rightarrow> error + ndarray" where
  "reverse_delta self delta_arr labeled_arr delta_output =
     bindE (batch_size_of labeled_arr) (\<lambda>batch_size.
       nd_add (nd_mul_scalar delta_arr (real_of_int batch_size * delta_output)) labeled_arr)"

section \<open>What the operations compute\<close>

text \<open>The description of the three operations, element by element, against which the
  definitions above are compared: the raw difference and the raw delta, the factor of the
  clipping, and the penalty added at the end.\<close>

definition raw_diff :: "ndarray \<Rightarrow> ndarray \<Rightarrow> int \<Rightarrow> real list" where
  "raw_diff pred_arr labeled_arr bs =
     map2 (\<lambda>l p. (l - p) / real_of_int bs) (data labeled_arr) (data pred_arr)"

definition raw_delta :: "ndarray \<Rightarrow> ndarray \<Rightarrow> int \<Rightarrow> real \<Rightarrow> real list" where
  "raw_delta pred_arr labeled_arr bs delta_output =
     map2 (\<lambda>p l. (p - l) / real_of_int bs * delta_output) (data pred_arr) (data labeled_arr)"

definition clip_factor :: "real \<Rightarrow> real \<Rightarrow> real" where
  "clip_factor t v = (if v > t then t / v else 1)"

definition scale :: "real \<Rightarrow> real list \<Rightarrow> real list" where
  "scale c xs = map (\<lambda>x. x * c) xs"

definition add_penalty :: "ndarray option \<Rightarrow> nat list \<Rightarrow> real list \<Rightarrow> real list" where
  "add_penalty pen s xs =
     (case pen of None \<Rightarrow> xs | Some p \<Rightarrow> map2 (\<lambda>x y. x + y) xs (broadcast_to p s))"

text \<open>The penalty array, when set, can be broadcast to the shape of the array it is added
  to.\<close>

definition penalty_fits :: "mean_squared_error \<Rightarrow> ndarray \<Rightarrow> bool" where
  "penalty_fits self a =
     (case penalty_arr self of
        None \<Rightarrow> True
      | Some p \<Rightarrow> broadcast_shape (shape a) (shape p) = Some (shape a))"

text \<open>The array of zeros of a given shape.\<close>

definition zeros :: "nat list \<Rightarrow> ndarray" where
  "zeros s = \<lparr>shape = s, data = replicate (prod_list s) 0\<rparr>"

text \<open>The penalty array is absent or holds only zeros.\<close>

definition penalty_is_zero :: "mean_squared_error \<Rightarrow> ndarray \<Rightarrow> bool" where
  "penalty_is_zero self a =
     (case penalty_arr self of None \<Rightarrow> True | Some p \<Rightarrow> p = zeros (shape a))"

section \<open>Auxiliary facts\<close>

lemma broadcast_rev_same [simp]: "broadcast_rev xs xs = Some xs"
  by (induction xs) simp_all

lemma broadcast_shape_same [simp]: "broadcast_shape s s = Some s"
  by (simp add: broadcast_shape_def)

lemma unravel_length [simp]: "length (unravel s r) = length s"
  by (induction s arbitrary: r) simp_all

lemma ravel_unravel: "r < prod_list s \<Longrightarrow> ravel s (unravel s r) = r"
proof (induction s arbitrary: r)
  case Nil
  then show ?case by simp
next
  case (Cons d ds)
  from Cons.prems have "0 < prod_list ds"
    by (cases "prod_list ds = 0") simp_all
  then have "r mod prod_list ds < prod_list ds" by simp
  then have "ravel ds (unravel ds (r mod prod_list ds)) = r mod prod_list ds"
    by (rule Cons.IH)
  then show ?case by simp
qed

lemma unravel_clamp:
  "r < prod_list s \<Longrightarrow> map2 (\<lambda>d i. if d = 1 then 0 else i) s (unravel s r) = unravel s r"
proof (induction s arbitrary: r)
  case Nil
  then show ?case by simp
next
  case (Cons d ds)
  from Cons.prems have pos: "0 < prod_list ds"
    by (cases "prod_list ds = 0") simp_all
  then have "r mod prod_list ds < prod_list ds" by simp
  then have ih: "map2 (\<lambda>d i. if d = 1 then 0 else i) ds (unravel ds (r mod prod_list ds))
      = unravel ds (r mod prod_list ds)"
    by (rule Cons.IH)
  have "r div prod_list ds < d"
    using Cons.prems pos by (simp add: less_mult_imp_div_less mult.commute)
  then have "d = 1 \<Longrightarrow> r div prod_list ds = 0" by simp
  with ih show ?case by simp
qed

lemma bcast_index_same: "r < prod_list s \<Longrightarrow> bcast_index s s r = r"
  unfolding bcast_index_def Let_def
  by (simp only: diff_self_eq_0 replicate_0 append_Nil unravel_clamp ravel_unravel)

lemma broadcast_to_same:
  assumes "wf_ndarray a"
  shows "broadcast_to a (shape a) = data a"
proof -
  have "map (\<lambda>r. data a ! bcast_index (shape a) (shape a) r) [0..<prod_list (shape a)]
      = map (\<lambda>r. data a ! r) [0..<prod_list (shape a)]"
    by (intro map_cong refl) (simp add: bcast_index_same)
  also have "\<dots> = data a"
    using assms map_nth [of "data a"] by (simp only: wf_ndarray_def)
  finally show ?thesis by (simp add: broadcast_to_def)
qed


lemma nd_binop_same:
  assumes "wf_ndarray a" "wf_ndarray b" "shape a = shape b"
  shows "nd_binop f a b = Inr \<lparr>shape = shape a, data = map2 f (data a) (data b)\<rparr>"
  using broadcast_to_same [OF assms(1)] broadcast_to_same [OF assms(2)] assms(3)
  by (simp add: nd_binop_def)

lemma nd_sub_same:
  assumes "wf_ndarray a" "wf_ndarray b" "shape a = shape b"
  shows "nd_sub a b = Inr \<lparr>shape = shape a, data = map2 (\<lambda>x y. x - y) (data a) (data b)\<rparr>"
  unfolding nd_sub_def using assms by (rule nd_binop_same)

lemma nd_add_same:
  assumes "wf_ndarray a" "wf_ndarray b" "shape a = shape b"
  shows "nd_add a b = Inr \<lparr>shape = shape a, data = map2 (\<lambda>x y. x + y) (data a) (data b)\<rparr>"
  unfolding nd_add_def using assms by (rule nd_binop_same)

lemma nd_iadd_same:
  assumes "wf_ndarray b" "shape a = shape b"
  shows "nd_iadd a b = Inr \<lparr>shape = shape a, data = map2 (\<lambda>x y. x + y) (data a) (data b)\<rparr>"
  using broadcast_to_same [OF assms(1)] assms(2)
  by (simp add: nd_iadd_def)

text \<open>Broadcasting a row, and a column, over an array of shape \<open>(2, 3)\<close>.\<close>

lemma broadcast_example:
  "nd_add \<lparr>shape = [2, 3], data = [1, 2, 3, 4, 5, 6]\<rparr> \<lparr>shape = [3], data = [10, 20, 30]\<rparr>
     = Inr \<lparr>shape = [2, 3], data = [11, 22, 33, 14, 25, 36]\<rparr>"
  by code_simp

lemma broadcast_example2:
  "nd_iadd \<lparr>shape = [2, 3], data = [1, 2, 3, 4, 5, 6]\<rparr> \<lparr>shape = [2, 1], data = [10, 20]\<rparr>
     = Inr \<lparr>shape = [2, 3], data = [11, 12, 13, 24, 25, 26]\<rparr>
   \<and> nd_iadd \<lparr>shape = [2, 1], data = [10, 20]\<rparr> \<lparr>shape = [2, 3], data = [1, 2, 3, 4, 5, 6]\<rparr>
     = Inl ShapeMismatch
   \<and> nd_sub \<lparr>shape = [2], data = [1, 2]\<rparr> \<lparr>shape = [3], data = [1, 2, 3]\<rparr> = Inl ShapeMismatch"
  by code_simp

text \<open>Means of an array of shape \<open>(2, 3)\<close> along its axes, and the cases without a mean.\<close>

lemma mean_example:
  "nd_mean \<lparr>shape = [2, 3], data = [1, 2, 3, 4, 5, 6]\<rparr> (AxisInt 0)
     = Inr \<lparr>shape = [3], data = [5 / 2, 7 / 2, 9 / 2]\<rparr>
   \<and> nd_mean \<lparr>shape = [2, 3], data = [1, 2, 3, 4, 5, 6]\<rparr> (AxisInt (- 1))
     = Inr \<lparr>shape = [2], data = [2, 5]\<rparr>
   \<and> nd_mean \<lparr>shape = [2, 3], data = [1, 2, 3, 4, 5, 6]\<rparr> (AxisTuple [0, 1])
     = Inr \<lparr>shape = [], data = [7 / 2]\<rparr>
   \<and> nd_mean \<lparr>shape = [2, 3], data = [1, 2, 3, 4, 5, 6]\<rparr> AxisNone
     = Inr \<lparr>shape = [], data = [7 / 2]\<rparr>
   \<and> nd_mean \<lparr>shape = [2, 2, 2], data = [1, 2, 3, 4, 5, 6, 7, 8]\<rparr> (AxisInt 1)
     = Inr \<lparr>shape = [2, 2], data = [2, 3, 6, 7]\<rparr>
   \<and> nd_mean \<lparr>shape = [2, 3], data = [1, 2, 3, 4, 5, 6]\<rparr> (AxisInt 2) = Inl AxisError
   \<and> nd_mean \<lparr>shape = [2, 3], data = [1, 2, 3, 4, 5, 6]\<rparr> (AxisTuple [1, - 1]) = Inl DuplicateAxis
   \<and> nd_mean \<lparr>shape = [0, 3], data = []\<rparr> (AxisInt 0) = Inl NotFinite
   \<and> nd_mean \<lparr>shape = [0, 3], data = []\<rparr> (AxisInt 1) = Inr \<lparr>shape = [0], data = []\<rparr>"
  by code_simp

lemma bindE_Inr [simp]: "bindE (Inr x) f = f x"
  by (simp add: bindE_def)

lemma bindE_Inl [simp]: "bindE (Inl e) f = Inl e"
  by (simp add: bindE_def)

lemma sum_sq_nonneg: "0 \<le> sum_list (map (\<lambda>x::real. x * x) xs)"
  by (induction xs) simp_all


lemma l2_Nil [simp]: "l2 [] = 0"
  by (simp add: l2_def)



lemma sum_sq_eq_0_iff: "sum_list (map (\<lambda>x::real. x * x) xs) = 0 \<longleftrightarrow> (\<forall>x\<in>set xs. x = 0)"
proof (induction xs)
  case Nil
  show ?case by simp
next
  case (Cons a xs)
  have "a * a + sum_list (map (\<lambda>x. x * x) xs) = 0 \<longleftrightarrow> a * a = 0 \<and> sum_list (map (\<lambda>x. x * x) xs) = 0"
    by (rule add_nonneg_eq_0_iff) (simp_all add: sum_sq_nonneg)
  with Cons show ?case by simp
qed

lemma l2_eq_0_iff: "l2 xs = 0 \<longleftrightarrow> (\<forall>x\<in>set xs. x = 0)"
  by (simp add: l2_def sum_sq_eq_0_iff)

text \<open>The clipping step that both methods write out, on an array \<open>a\<close>.\<close>

lemma clip_step:
  "(if nd_norm a > t then nd_div_scalar (nd_mul_scalar a t) (nd_norm a) else Inr a) =
     (if t < l2 (data a) \<and> l2 (data a) = 0 \<and> data a \<noteq> [] then Inl NotFinite
      else Inr \<lparr>shape = shape a, data = scale (clip_factor t (l2 (data a))) (data a)\<rparr>)"
  by (simp add: nd_norm_def nd_div_scalar_def nd_mul_scalar_def scale_def clip_factor_def)

lemma penalty_step:
  assumes "case pen of None \<Rightarrow> True | Some p \<Rightarrow> broadcast_shape (shape a) (shape p) = Some (shape a)"
  shows "(case pen of None \<Rightarrow> Inr a | Some p \<Rightarrow> nd_iadd a p) =
     Inr \<lparr>shape = shape a, data = add_penalty pen (shape a) (data a)\<rparr>"
  using assms by (cases pen) (simp_all add: nd_iadd_def add_penalty_def)

lemma loss_diff_arr_closed:
  assumes sh: "shape pred_arr = shape labeled_arr"
    and bs: "batch_size_of labeled_arr = Inr bs" "bs \<noteq> 0"
    and pen: "penalty_fits self pred_arr"
    and wf: "wf_ndarray pred_arr" "wf_ndarray labeled_arr"
  shows "loss_diff_arr self pred_arr labeled_arr =
     (let raw = raw_diff pred_arr labeled_arr bs; v = l2 raw; t = grad_clip_threshold self
      in if t < v \<and> v = 0 \<and> raw \<noteq> [] then Inl NotFinite
         else Inr \<lparr>shape = shape pred_arr,
                   data = add_penalty (penalty_arr self) (shape pred_arr) (scale (clip_factor t v) raw)\<rparr>)"
proof -
  let ?d = "\<lparr>shape = shape pred_arr, data = raw_diff pred_arr labeled_arr bs\<rparr>"
  have sub: "nd_sub labeled_arr pred_arr =
      Inr \<lparr>shape = shape labeled_arr, data = map2 (\<lambda>x y. x - y) (data labeled_arr) (data pred_arr)\<rparr>"
    using sh wf by (simp add: nd_sub_same)
  have dv: "nd_div_scalar \<lparr>shape = shape labeled_arr,
        data = map2 (\<lambda>x y. x - y) (data labeled_arr) (data pred_arr)\<rparr> (real_of_int bs) = Inr ?d"
    using bs(2) sh by (simp add: nd_div_scalar_def raw_diff_def split_def)
  have pf: "case penalty_arr self of None \<Rightarrow> True
      | Some p \<Rightarrow> broadcast_shape (shape b) (shape p) = Some (shape b)"
    if "shape b = shape pred_arr" for b :: ndarray
    using pen that by (simp add: penalty_fits_def split: option.splits)
  have "loss_diff_arr self pred_arr labeled_arr =
      bindE (if nd_norm ?d > grad_clip_threshold self
             then nd_div_scalar (nd_mul_scalar ?d (grad_clip_threshold self)) (nd_norm ?d)
             else Inr ?d)
        (\<lambda>diff_arr. case penalty_arr self of None \<Rightarrow> Inr diff_arr | Some p \<Rightarrow> nd_iadd diff_arr p)"
    by (simp add: loss_diff_arr_def bs(1) sub dv Let_def)
  also have "\<dots> =
     (let raw = raw_diff pred_arr labeled_arr bs; v = l2 raw; t = grad_clip_threshold self
      in if t < v \<and> v = 0 \<and> raw \<noteq> [] then Inl NotFinite
         else Inr \<lparr>shape = shape pred_arr,
                   data = add_penalty (penalty_arr self) (shape pred_arr) (scale (clip_factor t v) raw)\<rparr>)"
    unfolding clip_step by (simp add: Let_def penalty_step pf)
  finally show ?thesis .
qed

lemma compute_delta_closed:
  assumes sh: "shape pred_arr = shape labeled_arr"
    and bs: "batch_size_of labeled_arr = Inr bs" "bs \<noteq> 0"
    and pen: "penalty_fits self pred_arr"
    and wf: "wf_ndarray pred_arr" "wf_ndarray labeled_arr"
  shows "compute_delta self pred_arr labeled_arr delta_output =
     (let raw = raw_delta pred_arr labeled_arr bs delta_output; v = l2 raw;
          t = grad_clip_threshold self
      in if t < v \<and> v = 0 \<and> raw \<noteq> [] then Inl NotFinite
         else Inr \<lparr>shape = shape pred_arr,
                   data = add_penalty (penalty_arr self) (shape pred_arr) (scale (clip_factor t v) raw)\<rparr>)"
proof -
  let ?d = "\<lparr>shape = shape pred_arr, data = raw_delta pred_arr labeled_arr bs delta_output\<rparr>"
  let ?s = "\<lparr>shape = shape pred_arr,
      data = map2 (\<lambda>x y. x - y) (data pred_arr) (data labeled_arr)\<rparr>"
  have sub: "nd_sub pred_arr labeled_arr = Inr ?s"
    using sh wf by (simp add: nd_sub_same)
  let ?q = "\<lparr>shape = shape pred_arr,
      data = map (\<lambda>x. x / real_of_int bs) (map2 (\<lambda>x y. x - y) (data pred_arr) (data labeled_arr))\<rparr>"
  have dv: "nd_div_scalar ?s (real_of_int bs) = Inr ?q"
    using bs(2) by (simp add: nd_div_scalar_def)
  have ml: "nd_mul_scalar ?q delta_output = ?d"
    by (simp add: nd_mul_scalar_def raw_delta_def split_def o_def)
  have pf: "case penalty_arr self of None \<Rightarrow> True
      | Some p \<Rightarrow> broadcast_shape (shape b) (shape p) = Some (shape b)"
    if "shape b = shape pred_arr" for b :: ndarray
    using pen that by (simp add: penalty_fits_def split: option.splits)
  have "compute_delta self pred_arr labeled_arr delta_output =
      bindE (if nd_norm ?d > grad_clip_threshold self
             then nd_div_scalar (nd_mul_scalar ?d (grad_clip_threshold self)) (nd_norm ?d)
             else Inr ?d)
        (\<lambda>delta_arr. case penalty_arr self of None \<Rightarrow> Inr delta_arr | Some p \<Rightarrow> nd_iadd delta_arr p)"
    unfolding compute_delta_def Let_def by (simp only: bs(1) sub bindE_Inr dv ml)
  also have "\<dots> =
     (let raw = raw_delta pred_arr labeled_arr bs delta_output; v = l2 raw;
          t = grad_clip_threshold self
      in if t < v \<and> v = 0 \<and> raw \<noteq> [] then Inl NotFinite
         else Inr \<lparr>shape = shape pred_arr,
                   data = add_penalty (penalty_arr self) (shape pred_arr) (scale (clip_factor t v) raw)\<rparr>)"
    unfolding clip_step by (simp add: Let_def penalty_step pf)
  finally show ?thesis .
qed



lemma clip_id:
  assumes "l2 xs \<le> t"
  shows "scale (clip_factor t (l2 xs)) xs = xs"
  using assms by (simp add: scale_def clip_factor_def)



lemma length_raw_delta:
  "length (data pred_arr) = length (data labeled_arr) \<Longrightarrow>
   length (raw_delta pred_arr labeled_arr bs c) = length (data pred_arr)"
  by (simp add: raw_delta_def)


lemma l2_three_four: "l2 [3, 4] = 5"
  by (simp add: l2_def real_sqrt_unique)

lemma batch_size_of_small:
  "shape a = n # rest \<Longrightarrow> n < 2 ^ 31 \<Longrightarrow> batch_size_of a = Inr (int n)"
  by (simp add: batch_size_of_def signed_of_nat signed_take_bit_int_eq_self)

lemma reverse_delta_closed:
  assumes "batch_size_of labeled_arr = Inr bs"
    and "shape delta_arr = shape labeled_arr"
    and "wf_ndarray delta_arr" "wf_ndarray labeled_arr"
  shows "reverse_delta self delta_arr labeled_arr delta_output =
      Inr \<lparr>shape = shape labeled_arr,
           data = map2 (\<lambda>d l. d * (real_of_int bs * delta_output) + l)
                    (data delta_arr) (data labeled_arr)\<rparr>"
proof -
  let ?m = "nd_mul_scalar delta_arr (real_of_int bs * delta_output)"
  have "wf_ndarray ?m" "shape ?m = shape labeled_arr"
    using assms(2,3) by (simp_all add: nd_mul_scalar_def wf_ndarray_def)
  then have "nd_add ?m labeled_arr =
      Inr \<lparr>shape = shape ?m, data = map2 (\<lambda>x y. x + y) (data ?m) (data labeled_arr)\<rparr>"
    using assms(4) by (intro nd_add_same)
  then show ?thesis
    using assms(1,2) by (simp add: reverse_delta_def nd_mul_scalar_def zip_map1 split_def)
qed

lemma round_trip_list:
  assumes "length xs = length ys" "c \<noteq> 0"
  shows "map2 (\<lambda>d l. d * c + l) (map2 (\<lambda>p l. (p - l) / c) xs ys) ys = (xs :: real list)"
  using assms by (induction xs ys rule: list_induct2) simp_all

lemma prod_list_split:
  assumes "k < length (s :: nat list)"
  shows "prod_list s = prod_list (take k s) * s ! k * prod_list (drop (Suc k) s)"
proof -
  have "s = take k s @ s ! k # drop (Suc k) s"
    using assms by (rule id_take_nth_drop)
  then have "prod_list s = prod_list (take k s @ s ! k # drop (Suc k) s)"
    by simp
  then show ?thesis by (simp add: mult.assoc)
qed

lemma index_bound:
  assumes "out < outer" "j < n" "i < inner"
  shows "(out * n + j) * inner + i < outer * n * (inner :: nat)"
proof -
  have "out * n + j < out * n + n" using assms(2) by simp
  also have "\<dots> = Suc out * n" by simp
  also have "\<dots> \<le> outer * n" using assms(1) by (intro mult_le_mono1) simp
  finally have "Suc (out * n + j) \<le> outer * n" by simp
  then have "Suc (out * n + j) * inner \<le> outer * n * inner"
    by (rule mult_le_mono1)
  moreover have "(out * n + j) * inner + i < Suc (out * n + j) * inner"
    using assms(3) by simp
  ultimately show ?thesis by linarith
qed

lemma concat_zero_rows:
  "concat (map (\<lambda>out. map (\<lambda>i. 0 :: real) [0..<inner]) [0..<outer]) = replicate (outer * inner) 0"
proof (induction outer)
  case 0
  show ?case by simp
next
  case (Suc outer)
  have "map (\<lambda>i. 0 :: real) [0..<inner] = replicate inner 0"
    by (simp add: map_replicate_const)
  with Suc show ?case
    by (simp add: replicate_add [symmetric] add.commute)
qed

lemma sum_list_all_zero:
  "(\<And>x. x \<in> set xs \<Longrightarrow> f x = (0 :: real)) \<Longrightarrow> sum_list (map f xs) = 0"
  by (induction xs) simp_all

lemma nd_sum_axis_zeros:
  assumes "k < length s"
  shows "nd_sum_axis (zeros s) k = zeros (take k s @ drop (Suc k) s)"
proof -
  let ?outer = "prod_list (take k s)" and ?n = "s ! k" and ?inner = "prod_list (drop (Suc k) s)"
  have N: "prod_list s = ?outer * ?n * ?inner"
    using assms by (rule prod_list_split)
  have cell: "sum_list (map (\<lambda>j. replicate (prod_list s) (0 :: real) ! ((out * ?n + j) * ?inner + i)) [0..<?n]) = 0"
    if "out < ?outer" "i < ?inner" for out i
  proof -
    have "replicate (prod_list s) (0 :: real) ! ((out * ?n + j) * ?inner + i) = 0" if "j < ?n" for j
      using index_bound [OF \<open>out < ?outer\<close> that \<open>i < ?inner\<close>] by (simp add: N)
    then show ?thesis
      by (intro sum_list_all_zero) simp
  qed
  have "concat (map (\<lambda>out. map (\<lambda>i. sum_list (map (\<lambda>j. replicate (prod_list s) (0 :: real)
            ! ((out * ?n + j) * ?inner + i)) [0..<?n])) [0..<?inner]) [0..<?outer])
      = concat (map (\<lambda>out. map (\<lambda>i. 0 :: real) [0..<?inner]) [0..<?outer])"
    by (intro arg_cong [where f = concat] map_cong refl) (simp_all add: cell)
  then show ?thesis
    by (simp add: nd_sum_axis_def zeros_def Let_def concat_zero_rows)
qed

lemma fold_sum_axis_zeros:
  assumes "sorted_wrt (\<lambda>x y. y < x) ds" "\<forall>k\<in>set ds. k < length s"
  shows "\<exists>s'. fold (\<lambda>k b. nd_sum_axis b k) ds (zeros s) = zeros s'"
  using assms
proof (induction ds arbitrary: s)
  case Nil
  show ?case by auto
next
  case (Cons k ds)
  let ?s1 = "take k s @ drop (Suc k) s"
  have k: "k < length s" using Cons.prems(2) by simp
  have "\<forall>k'\<in>set ds. k' < length ?s1"
  proof
    fix k' assume "k' \<in> set ds"
    then have "k' < k" using Cons.prems(1) by simp
    then show "k' < length ?s1" using k by simp
  qed
  moreover have "sorted_wrt (\<lambda>x y. y < x) ds" using Cons.prems(1) by simp
  ultimately obtain s' where "fold (\<lambda>k b. nd_sum_axis b k) ds (zeros ?s1) = zeros s'"
    using Cons.IH by blast
  then show ?case using k by (auto simp: nd_sum_axis_zeros)
qed

lemma normalize_axis_bound: "normalize_axis nd k = Inr ax \<Longrightarrow> ax < nd"
  by (auto simp: normalize_axis_def split: if_splits)

lemma normalize_axes_ok:
  "normalize_axes nd ks = Inr axs \<Longrightarrow> distinct axs \<and> (\<forall>k\<in>set axs. k < nd)"
proof (induction ks arbitrary: axs)
  case Nil
  then show ?case by simp
next
  case (Cons k ks)
  then show ?case
    by (auto split: sum.splits if_splits dest: normalize_axis_bound)
qed

lemma descending_sort:
  assumes "distinct axs"
  shows "sorted_wrt (\<lambda>x y. y < x) (rev (sort (axs :: nat list)))"
proof -
  have "sorted_wrt (<) (sort axs)"
    using assms by (simp add: strict_sorted_iff)
  then show ?thesis by (simp add: sorted_wrt_rev)
qed

lemma nd_mean_axes_zeros:
  assumes "distinct axs" "\<forall>k\<in>set axs. k < length s"
  shows "\<exists>s'. nd_mean_axes (zeros s) axs =
      (if prod_list (map (\<lambda>k. s ! k) axs) = 0 \<and> prod_list s' \<noteq> 0 then Inl NotFinite
       else Inr (zeros s'))"
proof -
  obtain s' where "fold (\<lambda>k b. nd_sum_axis b k) (rev (sort axs)) (zeros s) = zeros s'"
    using fold_sum_axis_zeros [OF descending_sort [OF assms(1)], of s] assms(2) by auto
  then have "nd_mean_axes (zeros s) axs =
      (if prod_list (map (\<lambda>k. s ! k) axs) = 0 \<and> prod_list s' \<noteq> 0 then Inl NotFinite
       else Inr (zeros s'))"
    by (simp add: nd_mean_axes_def Let_def nd_div_scalar_def zeros_def)
  then show ?thesis ..
qed

lemma map2_same: "map2 f xs xs = map (\<lambda>x. f x x) xs"
  by (induction xs) simp_all

lemma raw_diff_same: "raw_diff a a bs = replicate (length (data a)) 0"
  by (simp add: raw_diff_def map2_same map_replicate_const)

lemma l2_replicate_zero [simp]: "l2 (replicate n 0) = 0"
  by (simp add: l2_eq_0_iff)

lemma map2_add_zero: "map2 (\<lambda>x y. x + y) (replicate n (0::real)) (replicate n 0) = replicate n 0"
  by (induction n) simp_all

lemma loss_diff_arr_same:
  assumes "wf_ndarray a" "batch_size_of a = Inr bs" "bs \<noteq> 0"
    and "penalty_is_zero self a" "0 \<le> grad_clip_threshold self"
  shows "loss_diff_arr self a a = Inr (zeros (shape a))"
proof -
  have fits: "penalty_fits self a"
    using assms(4) by (auto simp: penalty_fits_def penalty_is_zero_def zeros_def split: option.splits)
  have "broadcast_to (zeros (shape a)) (shape a) = replicate (prod_list (shape a)) 0"
    using broadcast_to_same [of "zeros (shape a)"] by (simp add: zeros_def wf_ndarray_def)
  then have pen: "add_penalty (penalty_arr self) (shape a) (replicate (prod_list (shape a)) 0)
      = replicate (prod_list (shape a)) 0"
    using assms(4) by (auto simp: add_penalty_def penalty_is_zero_def map2_add_zero split: option.splits)
  have len: "length (data a) = prod_list (shape a)"
    using assms(1) by (simp add: wf_ndarray_def)
  show ?thesis
    using loss_diff_arr_closed [OF refl assms(2,3) fits assms(1,1)] assms(5)
    by (simp add: raw_diff_same Let_def clip_factor_def scale_def len pen zeros_def)
qed

lemma nd_square_zeros [simp]: "nd_square (zeros s) = zeros s"
  by (simp add: nd_square_def zeros_def)

lemma sum_list_replicate_zero [simp]: "sum_list (replicate n (0::real)) = 0"
  by (induction n) simp_all

lemma nd_mean_zeros_none:
  "nd_mean (zeros s) AxisNone =
     (if prod_list s = 0 then Inl NotFinite else Inr \<lparr>shape = [], data = [0]\<rparr>)"
  by (simp add: nd_mean_def nd_div_scalar_def zeros_def)

lemma nd_mean_zeros_result:
  assumes "nd_mean (zeros s) axis = Inr r"
  shows "\<forall>x\<in>set (data r). x = 0"
proof (cases axis)
  case AxisNone
  with assms show ?thesis by (auto simp: nd_mean_zeros_none split: if_splits)
next
  case (AxisInt k)
  with assms obtain axs where n: "normalize_axes (length s) [k] = Inr axs"
    and m: "nd_mean_axes (zeros s) axs = Inr r"
    by (cases "normalize_axes (length s) [k]") (simp_all add: nd_mean_def zeros_def)
  from normalize_axes_ok [OF n] nd_mean_axes_zeros [of axs s] m show ?thesis
    by (auto simp: zeros_def split: if_splits)
next
  case (AxisTuple ks)
  with assms obtain axs where n: "normalize_axes (length s) ks = Inr axs"
    and m: "nd_mean_axes (zeros s) axs = Inr r"
    by (cases "normalize_axes (length s) ks") (simp_all add: nd_mean_def zeros_def)
  from normalize_axes_ok [OF n] nd_mean_axes_zeros [of axs s] m show ?thesis
    by (auto simp: zeros_def split: if_splits)
qed

lemma prod_list_nonzero:
  "(\<forall>k\<in>set axs. s ! k \<noteq> (0::nat)) \<Longrightarrow> prod_list (map (\<lambda>k. s ! k) axs) \<noteq> 0"
  by (induction axs) simp_all

lemma nd_mean_zeros_tuple:
  assumes "normalize_axes (length s) ks = Inr axs" "\<forall>k\<in>set axs. s ! k \<noteq> 0"
  shows "\<exists>s'. nd_mean (zeros s) (AxisTuple ks) = Inr (zeros s')"
  using normalize_axes_ok [OF assms(1)] nd_mean_axes_zeros [of axs s] prod_list_nonzero [OF assms(2)]
    assms(1)
  by (auto simp: nd_mean_def zeros_def)

lemma nd_mean_zeros_int:
  assumes "normalize_axis (length s) k = Inr ax" "s ! ax \<noteq> 0"
  shows "\<exists>s'. nd_mean (zeros s) (AxisInt k) = Inr (zeros s')"
proof -
  have n: "normalize_axes (length s) [k] = Inr [ax]"
    using assms(1) by simp
  show ?thesis
    using normalize_axes_ok [OF n] nd_mean_axes_zeros [of "[ax]" s] assms(2) n
    by (auto simp: nd_mean_def zeros_def)
qed

lemma l2_single [simp]: "l2 [x] = \<bar>x\<bar>"
  by (simp add: l2_def)

lemma nd_mean_none:
  "nd_mean a AxisNone =
     (if data a = [] then Inl NotFinite
      else Inr \<lparr>shape = [], data = [sum_list (data a) / real (length (data a))]\<rparr>)"
  by (simp add: nd_mean_def nd_div_scalar_def)


lemma bindE_assoc: "bindE (bindE m f) g = bindE m (\<lambda>x. bindE (f x) g)"
  by (cases m) simp_all

section \<open>The delta\<close>



section \<open>The reverse delta\<close>



text \<open>
  Claim C9. Without a penalty, with \<open>delta_output = 1\<close> and a raw delta whose norm does not
  exceed the threshold, \<open>reverse_delta\<close> applied to the result of \<open>compute_delta\<close> gives back
  the predicted array.
\<close>

theorem round_trip_unclipped:
  assumes "wf_ndarray pred_arr" "wf_ndarray labeled_arr"
    and "shape pred_arr = shape labeled_arr"
    and "batch_size_of labeled_arr = Inr bs" "0 < bs"
    and "penalty_arr self = None"
    and "l2 (map2 (\<lambda>p l. (p - l) / real_of_int bs) (data pred_arr) (data labeled_arr))
          \<le> grad_clip_threshold self"
  shows "\<exists>delta_arr. compute_delta self pred_arr labeled_arr 1 = Inr delta_arr
          \<and> reverse_delta self delta_arr labeled_arr 1 = Inr pred_arr"
proof -
  let ?raw = "raw_delta pred_arr labeled_arr bs 1"
  have len: "length (data pred_arr) = length (data labeled_arr)"
    using assms(1-3) by (simp add: wf_ndarray_def)
  have le: "l2 ?raw \<le> grad_clip_threshold self"
    using assms(7) by (simp add: raw_delta_def)
  have fits: "penalty_fits self pred_arr"
    using assms(6) by (simp add: penalty_fits_def)
  have "compute_delta self pred_arr labeled_arr 1 =
      Inr \<lparr>shape = shape pred_arr, data = ?raw\<rparr>"
    using compute_delta_closed [OF assms(3,4) _ fits assms(1,2), of 1] assms(5,6) le
    by (simp add: Let_def clip_id add_penalty_def)
  moreover have "reverse_delta self \<lparr>shape = shape pred_arr, data = ?raw\<rparr> labeled_arr 1 =
      Inr pred_arr"
  proof -
    have raw1: "?raw = map2 (\<lambda>p l. (p - l) / real_of_int bs) (data pred_arr) (data labeled_arr)"
      by (simp add: raw_delta_def)
    have "map2 (\<lambda>d l. d * real_of_int bs + l) ?raw (data labeled_arr) = data pred_arr"
      unfolding raw1 using len assms(5) by (intro round_trip_list) simp_all
    then show ?thesis
      using reverse_delta_closed [OF assms(4), of "\<lparr>shape = shape pred_arr, data = ?raw\<rparr>" self 1]
        assms(1-3) len
      by (simp add: wf_ndarray_def length_raw_delta)
  qed
  ultimately show ?thesis by blast
qed

theorem round_trip_unclipped_witness:
  "wf_ndarray \<lparr>shape = [2], data = [6, 8]\<rparr> \<and> wf_ndarray \<lparr>shape = [2], data = [0, 0]\<rparr>
   \<and> batch_size_of \<lparr>shape = [2], data = [0, 0]\<rparr> = Inr 2
   \<and> l2 (map2 (\<lambda>p l. (p - l) / real_of_int 2) [6, 8] [0, 0]) \<le> 5
   \<and> (\<exists>delta_arr. compute_delta (init 5) \<lparr>shape = [2], data = [6, 8]\<rparr>
            \<lparr>shape = [2], data = [0, 0]\<rparr> 1 = Inr delta_arr
          \<and> reverse_delta (init 5) delta_arr \<lparr>shape = [2], data = [0, 0]\<rparr> 1
              = Inr \<lparr>shape = [2], data = [6, 8]\<rparr>)"
  using round_trip_unclipped [of "\<lparr>shape = [2], data = [6, 8]\<rparr>" "\<lparr>shape = [2], data = [0, 0]\<rparr>" 2
      "init 5"]
  by (simp add: wf_ndarray_def batch_size_of_def init_def l2_three_four)

text \<open>
  Claim C6. In general \<open>reverse_delta\<close> does not undo \<open>compute_delta\<close>: with
  \<open>delta_output = 2\<close> the factor enters twice, and the predicted array \<open>[1]\<close> comes back
  as \<open>[4]\<close>.
\<close>

theorem reverse_delta_not_inverse:
  "\<exists>self pred_arr labeled_arr delta_output bs delta_arr r.
     wf_ndarray pred_arr \<and> wf_ndarray labeled_arr \<and> shape pred_arr = shape labeled_arr
     \<and> batch_size_of labeled_arr = Inr bs \<and> 0 < bs
     \<and> compute_delta self pred_arr labeled_arr delta_output = Inr delta_arr
     \<and> reverse_delta self delta_arr labeled_arr delta_output = Inr r
     \<and> r \<noteq> pred_arr"
proof -
  let ?self = "init 100000"
  let ?p = "\<lparr>shape = [1], data = [1]\<rparr>"
  let ?l = "\<lparr>shape = [1], data = [0]\<rparr>"
  let ?d = "\<lparr>shape = [1], data = [2]\<rparr>"
  let ?r = "\<lparr>shape = [1], data = [4]\<rparr>"
  have "wf_ndarray ?p" "wf_ndarray ?l" "shape ?p = shape ?l"
    by (simp_all add: wf_ndarray_def)
  moreover have "batch_size_of ?l = Inr 1"
    by (simp add: batch_size_of_def)
  moreover have "compute_delta ?self ?p ?l 2 = Inr ?d"
    by (simp add: compute_delta_def init_def batch_size_of_def nd_sub_same wf_ndarray_def nd_div_scalar_def
        nd_mul_scalar_def nd_norm_def l2_def)
  moreover have "reverse_delta ?self ?d ?l 2 = Inr ?r"
    by (simp add: reverse_delta_def batch_size_of_def nd_add_same nd_iadd_same wf_ndarray_def nd_mul_scalar_def)
  moreover have "?r \<noteq> ?p" by simp
  ultimately show ?thesis by (metis zero_less_one)
qed

text \<open>
  With \<open>delta_output = 1\<close> the round trip fails as well, once the clipping is active
  (threshold \<open>1\<close>, \<open>[2]\<close> comes back as \<open>[1]\<close>) or a penalty array is set (penalty \<open>[3]\<close>,
  \<open>[2]\<close> comes back as \<open>[5]\<close>).
\<close>

lemma round_trip_fails_at_defaults:
  "compute_delta (init 1) \<lparr>shape = [1], data = [2]\<rparr> \<lparr>shape = [1], data = [0]\<rparr> 1
     = Inr \<lparr>shape = [1], data = [1]\<rparr>
   \<and> reverse_delta (init 1) \<lparr>shape = [1], data = [1]\<rparr> \<lparr>shape = [1], data = [0]\<rparr> 1
     = Inr \<lparr>shape = [1], data = [1]\<rparr>
   \<and> compute_delta \<lparr>penalty_arr = Some \<lparr>shape = [1], data = [3]\<rparr>, grad_clip_threshold = 100000\<rparr>
       \<lparr>shape = [1], data = [2]\<rparr> \<lparr>shape = [1], data = [0]\<rparr> 1
     = Inr \<lparr>shape = [1], data = [5]\<rparr>
   \<and> reverse_delta \<lparr>penalty_arr = Some \<lparr>shape = [1], data = [3]\<rparr>, grad_clip_threshold = 100000\<rparr>
       \<lparr>shape = [1], data = [5]\<rparr> \<lparr>shape = [1], data = [0]\<rparr> 1
     = Inr \<lparr>shape = [1], data = [5]\<rparr>"
  by (simp add: compute_delta_def reverse_delta_def init_def batch_size_of_def nd_sub_same
      nd_add_same nd_iadd_same wf_ndarray_def nd_div_scalar_def nd_mul_scalar_def nd_norm_def)

section \<open>The loss\<close>

text \<open>
  Claim C7, amended. For a predicted array equal to the labeled one, with a positive batch
  size, a threshold that is not negative and a penalty array that is absent or zero, the
  loss is zero: \<open>compute_loss\<close> without an axis returns \<open>0\<close> when the array has elements, and
  with valid axes of non-zero length it returns an array of zeros; whatever it returns
  holds only zeros.
\<close>

theorem zero_difference_zero_loss:
  assumes "wf_ndarray pred_arr" "batch_size_of pred_arr = Inr bs" "0 < bs"
    and "penalty_is_zero self pred_arr" "0 \<le> grad_clip_threshold self"
  shows "(data pred_arr \<noteq> [] \<longrightarrow>
            compute_loss self pred_arr pred_arr AxisNone = Inr \<lparr>shape = [], data = [0]\<rparr>)
    \<and> (\<forall>k ax. normalize_axis (length (shape pred_arr)) k = Inr ax \<and> shape pred_arr ! ax \<noteq> 0 \<longrightarrow>
            (\<exists>s'. compute_loss self pred_arr pred_arr (AxisInt k) = Inr (zeros s')))
    \<and> (\<forall>ks axs. normalize_axes (length (shape pred_arr)) ks = Inr axs
              \<and> (\<forall>k\<in>set axs. shape pred_arr ! k \<noteq> 0) \<longrightarrow>
            (\<exists>s'. compute_loss self pred_arr pred_arr (AxisTuple ks) = Inr (zeros s')))
    \<and> (\<forall>axis r. compute_loss self pred_arr pred_arr axis = Inr r \<longrightarrow> (\<forall>x\<in>set (data r). x = 0))"
proof -
  have d: "loss_diff_arr self pred_arr pred_arr = Inr (zeros (shape pred_arr))"
    using assms by (intro loss_diff_arr_same [where bs = bs]) simp_all
  have cl: "compute_loss self pred_arr pred_arr axis = nd_mean (zeros (shape pred_arr)) axis" for axis
    by (simp add: compute_loss_def d)
  have ne: "data pred_arr \<noteq> [] \<Longrightarrow> prod_list (shape pred_arr) \<noteq> 0"
    using assms(1) by (metis length_0_conv wf_ndarray_def)
  show ?thesis
    unfolding cl
    by (intro conjI allI impI)
      (auto simp: nd_mean_zeros_none ne intro: nd_mean_zeros_int nd_mean_zeros_tuple
        dest: nd_mean_zeros_result)
qed

theorem zero_difference_zero_loss_witness:
  "wf_ndarray \<lparr>shape = [2], data = [3, 4]\<rparr>
   \<and> batch_size_of \<lparr>shape = [2], data = [3, 4]\<rparr> = Inr 2
   \<and> penalty_is_zero (init 1) \<lparr>shape = [2], data = [3, 4]\<rparr>
   \<and> compute_loss (init 1) \<lparr>shape = [2], data = [3, 4]\<rparr> \<lparr>shape = [2], data = [3, 4]\<rparr> AxisNone
        = Inr \<lparr>shape = [], data = [0]\<rparr>
   \<and> (\<exists>s'. compute_loss (init 1) \<lparr>shape = [2], data = [3, 4]\<rparr> \<lparr>shape = [2], data = [3, 4]\<rparr>
          (AxisInt (- 1)) = Inr (zeros s'))"
proof -
  let ?a = "\<lparr>shape = [2], data = [3, 4]\<rparr>"
  have h: "wf_ndarray ?a" "batch_size_of ?a = Inr 2" "(0::int) < 2" "penalty_is_zero (init 1) ?a"
    "0 \<le> grad_clip_threshold (init 1)"
    by (simp_all add: wf_ndarray_def batch_size_of_def penalty_is_zero_def init_def)
  note t = zero_difference_zero_loss [OF h]
  have "compute_loss (init 1) ?a ?a AxisNone = Inr \<lparr>shape = [], data = [0]\<rparr>"
    using t by simp
  moreover have "\<exists>s'. compute_loss (init 1) ?a ?a (AxisInt (- 1)) = Inr (zeros s')"
    using t [THEN conjunct2, THEN conjunct1, rule_format, of "- 1" 0]
    by (simp add: normalize_axis_def)
  ultimately show ?thesis using h by simp
qed


text \<open>
  As stated for any penalty array, C7 fails: with the penalty \<open>[1]\<close> the loss of equal
  arrays is \<open>1\<close>. The other conditions are needed as well: a negative threshold divides zero
  by zero, an array without elements has no mean, and an axis may be out of range.
\<close>

theorem zero_difference_nonzero_loss:
  "compute_loss \<lparr>penalty_arr = Some \<lparr>shape = [1], data = [1]\<rparr>, grad_clip_threshold = 100000\<rparr>
      \<lparr>shape = [1], data = [1]\<rparr> \<lparr>shape = [1], data = [1]\<rparr> AxisNone
     = Inr \<lparr>shape = [], data = [1]\<rparr>
   \<and> compute_loss (init (- 1)) \<lparr>shape = [1], data = [1]\<rparr> \<lparr>shape = [1], data = [1]\<rparr> AxisNone
     = Inl NotFinite
   \<and> compute_loss (init 100000) \<lparr>shape = [1, 0], data = []\<rparr> \<lparr>shape = [1, 0], data = []\<rparr> AxisNone
     = Inl NotFinite
   \<and> compute_loss (init 100000) \<lparr>shape = [1], data = [1]\<rparr> \<lparr>shape = [1], data = [1]\<rparr> (AxisInt 1)
     = Inl AxisError"
  by (simp add: compute_loss_def loss_diff_arr_def init_def batch_size_of_def nd_sub_same wf_ndarray_def
      nd_div_scalar_def nd_mul_scalar_def nd_norm_def l2_def nd_add_same nd_iadd_same nd_square_def nd_mean_def
      normalize_axis_def)




section \<open>The gradient clipping\<close>







text \<open>
  The norms above are those of exact arithmetic. In IEEE doubles the rescaled elements are
  rounded: for the threshold \<open>3\<close>, the predicted array \<open>[6, 6]\<close> and the labeled array
  \<open>[0, 0]\<close> the raw delta is \<open>[3, 3]\<close>, its norm is the double nearest to the root of \<open>18\<close>, and
  each element \<open>3 * 3 / v\<close> is the double \<open>2388394377197165 / 2 ^ 50\<close>. The norm of that
  array exceeds the threshold.
\<close>

lemma rounded_clip_exceeds_threshold:
  "3 < nd_norm \<lparr>shape = [2], data = [2388394377197165 / 2 ^ 50, 2388394377197165 / 2 ^ 50]\<rparr>"
proof -
  have "(3::real)\<^sup>2 < 2388394377197165 / 2 ^ 50 * (2388394377197165 / 2 ^ 50)
      + 2388394377197165 / 2 ^ 50 * (2388394377197165 / 2 ^ 50)"
    by simp
  then have "3 < sqrt (2388394377197165 / 2 ^ 50 * (2388394377197165 / 2 ^ 50)
      + 2388394377197165 / 2 ^ 50 * (2388394377197165 / 2 ^ 50))"
    by (rule real_less_rsqrt)
  then show ?thesis
    by (simp add: nd_norm_def l2_def)
qed

section \<open>The penalty\<close>

text \<open>
  Claim C8, amended. When the penalty array is set, \<open>compute_loss\<close> adds it to the clipped
  difference before squaring, and \<open>compute_delta\<close> adds it to the clipped delta that it
  returns: each result is the one without a penalty, with the penalty added. \<open>reverse_delta\<close>
  does not read the penalty array.
\<close>

theorem penalty_added:
  assumes "penalty_arr self = Some p"
  shows "loss_diff_arr self pred_arr labeled_arr =
           bindE (loss_diff_arr (self\<lparr>penalty_arr := None\<rparr>) pred_arr labeled_arr)
             (\<lambda>diff_arr. nd_iadd diff_arr p)
       \<and> compute_loss self pred_arr labeled_arr axis =
           bindE (loss_diff_arr (self\<lparr>penalty_arr := None\<rparr>) pred_arr labeled_arr)
             (\<lambda>diff_arr. bindE (nd_iadd diff_arr p) (\<lambda>diff_arr. nd_mean (nd_square diff_arr) axis))
       \<and> compute_delta self pred_arr labeled_arr delta_output =
           bindE (compute_delta (self\<lparr>penalty_arr := None\<rparr>) pred_arr labeled_arr delta_output)
             (\<lambda>delta_arr. nd_iadd delta_arr p)
       \<and> reverse_delta self delta_arr labeled_arr delta_output =
           reverse_delta (self\<lparr>penalty_arr := None\<rparr>) delta_arr labeled_arr delta_output"
proof -
  have a: "loss_diff_arr self pred_arr labeled_arr =
           bindE (loss_diff_arr (self\<lparr>penalty_arr := None\<rparr>) pred_arr labeled_arr)
             (\<lambda>diff_arr. nd_iadd diff_arr p)"
    using assms by (simp add: loss_diff_arr_def bindE_assoc Let_def cong: if_cong)
  have b: "compute_delta self pred_arr labeled_arr delta_output =
           bindE (compute_delta (self\<lparr>penalty_arr := None\<rparr>) pred_arr labeled_arr delta_output)
             (\<lambda>delta_arr. nd_iadd delta_arr p)"
    using assms by (simp add: compute_delta_def bindE_assoc Let_def cong: if_cong)
  have c: "reverse_delta self delta_arr labeled_arr delta_output =
           reverse_delta (self\<lparr>penalty_arr := None\<rparr>) delta_arr labeled_arr delta_output"
    by (simp add: reverse_delta_def)
  show ?thesis
    using a b c by (simp add: compute_loss_def bindE_assoc)
qed

theorem penalty_added_witness:
  "penalty_arr \<lparr>penalty_arr = Some \<lparr>shape = [1], data = [5]\<rparr>, grad_clip_threshold = 1\<rparr>
      = Some \<lparr>shape = [1], data = [5]\<rparr>
   \<and> compute_delta \<lparr>penalty_arr = None, grad_clip_threshold = 1\<rparr>
        \<lparr>shape = [1], data = [3]\<rparr> \<lparr>shape = [1], data = [0]\<rparr> 1
      = Inr \<lparr>shape = [1], data = [1]\<rparr>
   \<and> compute_delta \<lparr>penalty_arr = Some \<lparr>shape = [1], data = [5]\<rparr>, grad_clip_threshold = 1\<rparr>
        \<lparr>shape = [1], data = [3]\<rparr> \<lparr>shape = [1], data = [0]\<rparr> 1
      = Inr \<lparr>shape = [1], data = [6]\<rparr>
   \<and> compute_loss \<lparr>penalty_arr = Some \<lparr>shape = [1], data = [5]\<rparr>, grad_clip_threshold = 1\<rparr>
        \<lparr>shape = [1], data = [0]\<rparr> \<lparr>shape = [1], data = [3]\<rparr> AxisNone
      = Inr \<lparr>shape = [], data = [36]\<rparr>"
proof -
  let ?s = "\<lparr>penalty_arr = Some \<lparr>shape = [1], data = [5]\<rparr>, grad_clip_threshold = 1\<rparr>"
  let ?n = "\<lparr>penalty_arr = None, grad_clip_threshold = 1\<rparr>"
  have h: "penalty_arr ?s = Some \<lparr>shape = [1], data = [5]\<rparr>" by simp
  have n: "?s\<lparr>penalty_arr := None\<rparr> = ?n" by simp
  have d: "compute_delta ?n \<lparr>shape = [1], data = [3]\<rparr> \<lparr>shape = [1], data = [0]\<rparr> 1
      = Inr \<lparr>shape = [1], data = [1]\<rparr>"
    by (simp add: compute_delta_def batch_size_of_def nd_sub_same wf_ndarray_def nd_div_scalar_def
        nd_mul_scalar_def nd_norm_def)
  have l: "loss_diff_arr ?n \<lparr>shape = [1], data = [0]\<rparr> \<lparr>shape = [1], data = [3]\<rparr>
      = Inr \<lparr>shape = [1], data = [1]\<rparr>"
    by (simp add: loss_diff_arr_def batch_size_of_def nd_sub_same wf_ndarray_def nd_div_scalar_def
        nd_mul_scalar_def nd_norm_def)
  have "compute_delta ?s \<lparr>shape = [1], data = [3]\<rparr> \<lparr>shape = [1], data = [0]\<rparr> 1
      = Inr \<lparr>shape = [1], data = [6]\<rparr>"
    using penalty_added [OF h, of "\<lparr>shape = [1], data = [3]\<rparr>" "\<lparr>shape = [1], data = [0]\<rparr>"
        AxisNone 1] d
    unfolding n by (simp add: nd_add_same nd_iadd_same wf_ndarray_def)
  moreover have "compute_loss ?s \<lparr>shape = [1], data = [0]\<rparr> \<lparr>shape = [1], data = [3]\<rparr> AxisNone
      = Inr \<lparr>shape = [], data = [36]\<rparr>"
    using penalty_added [OF h, of "\<lparr>shape = [1], data = [0]\<rparr>" "\<lparr>shape = [1], data = [3]\<rparr>"
        AxisNone 1] l
    unfolding n by (simp add: nd_add_same nd_iadd_same wf_ndarray_def nd_mean_none nd_square_def)
  ultimately show ?thesis using d by simp
qed

text \<open>
  As stated, C8 fails for \<open>reverse_delta\<close>: with the penalty \<open>[5]\<close> set it returns what it
  returns without one.
\<close>

theorem reverse_delta_ignores_penalty:
  "reverse_delta \<lparr>penalty_arr = Some \<lparr>shape = [1], data = [5]\<rparr>, grad_clip_threshold = 1\<rparr>
      \<lparr>shape = [1], data = [1]\<rparr> \<lparr>shape = [1], data = [0]\<rparr> 1
     = Inr \<lparr>shape = [1], data = [1]\<rparr>
   \<and> reverse_delta \<lparr>penalty_arr = None, grad_clip_threshold = 1\<rparr>
      \<lparr>shape = [1], data = [1]\<rparr> \<lparr>shape = [1], data = [0]\<rparr> 1
     = Inr \<lparr>shape = [1], data = [1]\<rparr>"
  by (simp add: reverse_delta_def batch_size_of_def nd_mul_scalar_def nd_add_same nd_iadd_same wf_ndarray_def)

section \<open>The empty batch\<close>

text \<open>
  Claim C10, amended. The division by the batch size is not guarded, and for a labeled array
  whose leading dimension is \<open>0\<close> the divisor is \<open>0\<close>. Such arrays have no elements, so no
  element is divided: \<open>compute_delta\<close> returns the empty array of the inputs' shape, the
  array that \<open>compute_loss\<close> squares is empty as well, and \<open>compute_loss\<close> without an axis has
  no value, being the mean of no elements.
\<close>

theorem empty_batch:
  assumes "wf_ndarray pred_arr" "wf_ndarray labeled_arr"
    and "shape pred_arr = shape labeled_arr"
    and "shape labeled_arr = 0 # rest"
    and "penalty_fits self pred_arr"
  shows "batch_size_of labeled_arr = Inr 0
       \<and> compute_delta self pred_arr labeled_arr delta_output =
           Inr \<lparr>shape = shape pred_arr, data = []\<rparr>
       \<and> loss_diff_arr self pred_arr labeled_arr = Inr \<lparr>shape = shape pred_arr, data = []\<rparr>
       \<and> compute_loss self pred_arr labeled_arr AxisNone = Inl NotFinite"
proof -
  have bs: "batch_size_of labeled_arr = Inr 0"
    using assms(4) by (simp add: batch_size_of_def)
  have e: "data pred_arr = []" "data labeled_arr = []"
    using assms(1-4) by (simp_all add: wf_ndarray_def)
  have pen: "(case penalty_arr self of None \<Rightarrow> Inr \<lparr>shape = shape pred_arr, data = []\<rparr>
      | Some p \<Rightarrow> nd_iadd \<lparr>shape = shape pred_arr, data = []\<rparr> p) = Inr \<lparr>shape = shape pred_arr, data = []\<rparr>"
    using assms(5) by (cases "penalty_arr self") (simp_all add: penalty_fits_def nd_iadd_def)
  have s1: "nd_sub pred_arr labeled_arr = Inr \<lparr>shape = shape pred_arr, data = []\<rparr>"
    and s2: "nd_sub labeled_arr pred_arr = Inr \<lparr>shape = shape pred_arr, data = []\<rparr>"
    using assms(1-3) e by (simp_all add: nd_sub_same)
  have d: "compute_delta self pred_arr labeled_arr delta_output =
      Inr \<lparr>shape = shape pred_arr, data = []\<rparr>"
    by (simp add: compute_delta_def bs s1 nd_div_scalar_def nd_mul_scalar_def nd_norm_def Let_def pen)
  have l: "loss_diff_arr self pred_arr labeled_arr = Inr \<lparr>shape = shape pred_arr, data = []\<rparr>"
    by (simp add: loss_diff_arr_def bs s2 nd_div_scalar_def nd_mul_scalar_def nd_norm_def Let_def pen)
  have "compute_loss self pred_arr labeled_arr AxisNone = Inl NotFinite"
    by (simp add: compute_loss_def l nd_mean_none nd_square_def)
  with bs d l show ?thesis by simp
qed

theorem empty_batch_witness:
  "wf_ndarray \<lparr>shape = [0, 3], data = []\<rparr>
   \<and> penalty_fits (init 100000) \<lparr>shape = [0, 3], data = []\<rparr>
   \<and> batch_size_of \<lparr>shape = [0, 3], data = []\<rparr> = Inr 0
   \<and> compute_delta (init 100000) \<lparr>shape = [0, 3], data = []\<rparr> \<lparr>shape = [0, 3], data = []\<rparr> 1
       = Inr \<lparr>shape = [0, 3], data = []\<rparr>
   \<and> compute_loss (init 100000) \<lparr>shape = [0, 3], data = []\<rparr> \<lparr>shape = [0, 3], data = []\<rparr> AxisNone
       = Inl NotFinite"
  using empty_batch [of "\<lparr>shape = [0, 3], data = []\<rparr>" "\<lparr>shape = [0, 3], data = []\<rparr>" "[3]"
      "init 100000" 1]
  by (simp add: wf_ndarray_def penalty_fits_def init_def)

text \<open>
  As stated, C10 fails: for the leading dimension \<open>0\<close> the division by the batch size ends in
  no error. \<open>compute_delta\<close> returns the empty array, and so does \<open>compute_loss\<close> along the
  second axis of an array of shape \<open>(0, 3)\<close>.
\<close>

theorem empty_batch_no_error:
  "batch_size_of \<lparr>shape = [0], data = []\<rparr> = Inr 0
   \<and> compute_delta (init 100000) \<lparr>shape = [0], data = []\<rparr> \<lparr>shape = [0], data = []\<rparr> 1
       = Inr \<lparr>shape = [0], data = []\<rparr>
   \<and> compute_loss (init 100000) \<lparr>shape = [0, 3], data = []\<rparr> \<lparr>shape = [0, 3], data = []\<rparr> (AxisInt 1)
       = Inr \<lparr>shape = [0], data = []\<rparr>"
  by (simp add: compute_delta_def compute_loss_def loss_diff_arr_def init_def batch_size_of_def
      nd_sub_same wf_ndarray_def nd_div_scalar_def nd_mul_scalar_def nd_norm_def nd_square_def nd_mean_def
      nd_mean_axes_def nd_sum_axis_def normalize_axis_def)

text \<open>
  The batch size is a C \<open>int\<close>. A leading dimension of \<open>2 ^ 32\<close> becomes the batch size
  \<open>0\<close> as well, and there the arrays do have elements: each is divided by zero.
\<close>

lemma batch_size_wraps: "batch_size_of \<lparr>shape = [2 ^ 32], data = replicate (2 ^ 32) 1\<rparr> = Inr 0"
  by (simp add: batch_size_of_def)

lemma batch_size_wraps_negative: "batch_size_of \<lparr>shape = [2 ^ 31], data = replicate (2 ^ 31) 1\<rparr> = Inr (- (2 ^ 31))"
  by (simp add: batch_size_of_def)

lemma division_by_wrapped_batch_size:
  "wf_ndarray \<lparr>shape = [2 ^ 32], data = replicate (2 ^ 32) 1\<rparr>
   \<and> compute_delta (init 100000) \<lparr>shape = [2 ^ 32], data = replicate (2 ^ 32) 1\<rparr>
         \<lparr>shape = [2 ^ 32], data = replicate (2 ^ 32) 1\<rparr> 1 = Inl NotFinite"
  by (simp add: compute_delta_def batch_size_of_def nd_sub_same wf_ndarray_def nd_div_scalar_def)

end
